theory Spec2Isabelle
  imports Complex_Main "HOL-Library.Multiset"
begin

section \<open>Data model\<close>

text \<open>
  The pipeline of \<^verbatim>\<open>src/v2\<close>: the producer \<^verbatim>\<open>run_detection\<close> (detect_cars.py) puts
  raw crossing data on a queue, the consumer \<^verbatim>\<open>analyze_stream\<close> (analyze.py) computes
  speeds and \<^verbatim>\<open>write_report\<close> bins them.

  Floats (pixel coordinates, times, speeds, percentiles) are modelled as exact reals,
  Python ints as \<open>int\<close>. List indexing raises out of range, as Python's does; a
  division of numpy scalars by zero raises nothing and leaves the real numbers.
\<close>

datatype direction = LTR | RTL

text \<open>The dict put on the queue at lines 156-163 of detect_cars.py.\<close>

record crossing_event =
  vehicle_number :: int
  track_id :: int
  direction :: direction
  distance_pixels :: real
  time_elapsed :: real
  timestamp :: real

text \<open>A queue item is a crossing dict or \<^verbatim>\<open>None\<close>, the end-of-stream signal.\<close>

datatype queue_item = Event crossing_event | Sentinel

text \<open>The configuration keys read by the modelled code.\<close>

record config =
  vehicle_classes :: "int list"
  use_left_half :: bool
  min_time_before_count :: real
  rtl_correction_factor :: real
  report_update_interval :: int
  percentile_low :: real
  percentile_high :: real
  normal_range_bins :: nat

section \<open>The producer: run_detection\<close>

text \<open>
  One element of \<^verbatim>\<open>zip(track_ids, xyxy, classes)\<close>: the track id, the box
  \<open>(x1, y1, x2, y2)\<close> and the class.
\<close>

type_synonym detection = "int \<times> (real \<times> real \<times> real \<times> real) \<times> int"

text \<open>
  What one loop iteration reads: the frame's width, the tracker's boxes
  (\<open>None\<close> when \<^verbatim>\<open>boxes\<close> or \<^verbatim>\<open>boxes.id\<close> is \<^verbatim>\<open>None\<close>) and the value of
  \<^verbatim>\<open>time.time()\<close> taken at line 116.
\<close>

record frame =
  frame_width :: int
  boxes :: "detection list option"
  current_time :: real

text \<open>The state of lines 52-55, and the items put on the queue so far, oldest first.\<close>

record det_state =
  vehicle_count :: int
  crossed_ids :: "int set"
  previous_positions :: "int \<rightharpoonup> real \<times> real"
  first_seen_position :: "int \<rightharpoonup> real \<times> real \<times> real"
  data_queue :: "queue_item list"

definition initial_state :: det_state where
  "initial_state =
     \<lparr>vehicle_count = 0, crossed_ids = {}, previous_positions = Map.empty,
      first_seen_position = Map.empty, data_queue = []\<rparr>"

text \<open>Lines 86-93: \<^verbatim>\<open>line_x = crop_width // 2\<close>.\<close>

definition crop_width :: "config \<Rightarrow> frame \<Rightarrow> int" where
  "crop_width cfg f = (if use_left_half cfg then frame_width f div 2 else frame_width f)"

definition line_x :: "config \<Rightarrow> frame \<Rightarrow> int" where
  "line_x cfg f = crop_width cfg f div 2"

text \<open>Lines 138-139.\<close>

definition crossed_right :: "real \<Rightarrow> int \<Rightarrow> real \<Rightarrow> bool" where
  "crossed_right prev_x lx center_x \<longleftrightarrow> prev_x < of_int lx \<and> of_int lx \<le> center_x"

definition crossed_left :: "real \<Rightarrow> int \<Rightarrow> real \<Rightarrow> bool" where
  "crossed_left prev_x lx center_x \<longleftrightarrow> prev_x > of_int lx \<and> of_int lx \<ge> center_x"

text \<open>
  Lines 142-163, the body of the test of line 141: the dwell check, and on success the
  counter, the Crossed-ID set and the put. \<open>first\<close> is \<^verbatim>\<open>first_seen_position[track_id]\<close>.
\<close>

definition count_crossing ::
  "config \<Rightarrow> real \<Rightarrow> real \<Rightarrow> int \<Rightarrow> real \<Rightarrow> bool \<Rightarrow> real \<times> real \<times> real \<Rightarrow> det_state \<Rightarrow> det_state"
where
  "count_crossing cfg now start_time tid center_x is_left first s =
     (case first of (first_x, first_y, first_time) \<Rightarrow>
        let distance = \<bar>center_x - first_x\<bar>;
            elapsed = now - first_time
        in if elapsed > min_time_before_count cfg then
             s\<lparr>vehicle_count := vehicle_count s + 1,
               crossed_ids := insert tid (crossed_ids s),
               data_queue := data_queue s @
                 [Event \<lparr>vehicle_number = vehicle_count s + 1,
                         track_id = tid,
                         direction = (if is_left then RTL else LTR),
                         distance_pixels = distance,
                         time_elapsed = elapsed,
                         timestamp = now - start_time\<rparr>]\<rparr>
           else s)"

text \<open>
  Lines 120-169, one pass of the loop over the detections. The lookup of line 142 cannot
  fail: lines 131-132 have stored an entry for the id when there was none, so it reads
  the stored entry or the one just written.
\<close>

definition process_detection ::
  "config \<Rightarrow> int \<Rightarrow> real \<Rightarrow> real \<Rightarrow> detection \<Rightarrow> det_state \<Rightarrow> det_state"
where
  "process_detection cfg lx now start_time det s =
     (case det of (tid, (x1, y1, x2, y2), cls) \<Rightarrow>
        if cls \<notin> set (vehicle_classes cfg) then s
        else
          let center_x = (x1 + x2) / 2;
              center_y = (y1 + y2) / 2;
              first = (case first_seen_position s tid of
                         None \<Rightarrow> (center_x, center_y, now)
                       | Some e \<Rightarrow> e);
              s1 = s\<lparr>first_seen_position := (first_seen_position s)(tid \<mapsto> first)\<rparr>;
              s2 = (case previous_positions s1 tid of
                      None \<Rightarrow> s1
                    | Some (prev_x, prev_y) \<Rightarrow>
                        if (crossed_right prev_x lx center_x \<or> crossed_left prev_x lx center_x)
                           \<and> tid \<notin> crossed_ids s1
                        then count_crossing cfg now start_time tid center_x
                               (crossed_left prev_x lx center_x) first s1
                        else s1)
          in s2\<lparr>previous_positions := (previous_positions s2)(tid \<mapsto> (center_x, center_y))\<rparr>)"

fun process_detections ::
  "config \<Rightarrow> int \<Rightarrow> real \<Rightarrow> real \<Rightarrow> detection list \<Rightarrow> det_state \<Rightarrow> det_state"
where
  "process_detections cfg lx now start_time [] s = s"
| "process_detections cfg lx now start_time (d # ds) s =
     process_detections cfg lx now start_time ds (process_detection cfg lx now start_time d s)"

text \<open>Lines 77-169 for a frame that was read: nothing is done without boxes (line 111).\<close>

definition process_frame :: "config \<Rightarrow> real \<Rightarrow> frame \<Rightarrow> det_state \<Rightarrow> det_state" where
  "process_frame cfg start_time f s =
     (case boxes f of
        None \<Rightarrow> s
      | Some ds \<Rightarrow> process_detections cfg (line_x cfg f) (current_time f) start_time ds s)"

fun process_frames :: "config \<Rightarrow> real \<Rightarrow> frame list \<Rightarrow> det_state \<Rightarrow> det_state" where
  "process_frames cfg start_time [] s = s"
| "process_frames cfg start_time (f # fs) s =
     process_frames cfg start_time fs (process_frame cfg start_time f s)"

text \<open>
  How a run of \<^verbatim>\<open>run_detection\<close> ends.
  \<^item> \<open>SetupRaised e\<close>: an exception is raised at lines 27-39, before the camera check
    (loading the model, a missing configuration key). No handler is in force there.
  \<^item> \<open>InitRaised e\<close>: an exception is raised at lines 48-73, after the camera check and
    before the \<^verbatim>\<open>try\<close> of line 75 (a missing configuration key,
    \<^verbatim>\<open>os.makedirs\<close>). No handler is in force there either.
  \<^item> \<open>ReadFailure\<close>: \<^verbatim>\<open>cap.read()\<close> fails, the \<^verbatim>\<open>break\<close> of line 80.
  \<^item> \<open>Raised e p\<close>: an exception is raised inside the \<^verbatim>\<open>try\<close> block and caught at
    line 204 or 206, either outside the loop over the detections (\<open>p = None\<close>) or in a
    frame \<open>f\<close> of which the first \<open>k\<close> detections have been handled
    (\<open>p = Some (f, k)\<close>).
  \<^item> \<open>Terminated p\<close>: the process is ended from outside while it is in the loop, at
    the point \<open>p\<close>. This is how run_traffic.py stops the producer when the duration has
    elapsed or the operator interrupts: \<^verbatim>\<open>detector.terminate()\<close> (line 116) and
    \<^verbatim>\<open>detector.kill()\<close> (line 121) send SIGTERM and SIGKILL, for which
    detect_cars.py installs no handler, so the process ends at once and neither the
    \<^verbatim>\<open>except\<close> clauses nor the \<^verbatim>\<open>finally\<close> clause run.
\<close>

datatype exc = KeyboardInterrupt | OtherException

datatype stop_cause =
    SetupRaised exc
  | InitRaised exc
  | ReadFailure
  | Raised exc "(frame \<times> nat) option"
  | Terminated "(frame \<times> nat) option"

definition partial_frame :: "config \<Rightarrow> real \<Rightarrow> frame \<Rightarrow> nat \<Rightarrow> det_state \<Rightarrow> det_state" where
  "partial_frame cfg start_time f k s =
     (case boxes f of
        None \<Rightarrow> s
      | Some ds \<Rightarrow>
          process_detections cfg (line_x cfg f) (current_time f) start_time (take k ds) s)"

text \<open>The state in which the loop is left, from the state after the last whole frame.\<close>

definition stop_state :: "config \<Rightarrow> real \<Rightarrow> stop_cause \<Rightarrow> det_state \<Rightarrow> det_state" where
  "stop_state cfg start_time c s =
     (case c of
        SetupRaised e \<Rightarrow> s
      | InitRaised e \<Rightarrow> s
      | ReadFailure \<Rightarrow> s
      | Raised e None \<Rightarrow> s
      | Raised e (Some (f, k)) \<Rightarrow> partial_frame cfg start_time f k s
      | Terminated None \<Rightarrow> s
      | Terminated (Some (f, k)) \<Rightarrow> partial_frame cfg start_time f k s)"

definition final_state :: "config \<Rightarrow> real \<Rightarrow> frame list \<Rightarrow> stop_cause \<Rightarrow> det_state" where
  "final_state cfg start_time frames c =
     stop_state cfg start_time c (process_frames cfg start_time frames initial_state)"

text \<open>
  \<^verbatim>\<open>run_detection\<close>: \<open>opened\<close> is \<^verbatim>\<open>cap.isOpened()\<close> at line 43, \<open>frames\<close> are
  the frames read before the loop is left and \<open>c\<close> is how the run ends. The result is
  everything put on the queue, in order.
  \<^item> An exception before the camera check leaves the function with nothing put.
  \<^item> Otherwise a camera that is not opened puts \<^verbatim>\<open>None\<close> and returns (lines 45-46).
  \<^item> An exception at lines 48-73 leaves the function with nothing put.
  \<^item> A read failure and an exception inside the \<^verbatim>\<open>try\<close> block reach the
    \<^verbatim>\<open>finally\<close> clause, which puts \<^verbatim>\<open>None\<close> last (line 210).
  \<^item> A terminated process has put the crossings counted so far and nothing else.
\<close>

definition run_detection ::
  "config \<Rightarrow> real \<Rightarrow> bool \<Rightarrow> frame list \<Rightarrow> stop_cause \<Rightarrow> queue_item list"
where
  "run_detection cfg start_time opened frames c =
     (case c of
        SetupRaised e \<Rightarrow> []
      | InitRaised e \<Rightarrow> (if \<not> opened then [Sentinel] else [])
      | ReadFailure \<Rightarrow>
          (if \<not> opened then [Sentinel]
           else data_queue (final_state cfg start_time frames c) @ [Sentinel])
      | Raised e p \<Rightarrow>
          (if \<not> opened then [Sentinel]
           else data_queue (final_state cfg start_time frames c) @ [Sentinel])
      | Terminated p \<Rightarrow>
          (if \<not> opened then [Sentinel]
           else data_queue (final_state cfg start_time frames c)))"

text \<open>The crossing dicts among the queue items, in order.\<close>

fun events :: "queue_item list \<Rightarrow> crossing_event list" where
  "events [] = []"
| "events (Event e # q) = e # events q"
| "events (Sentinel # q) = events q"

section \<open>The consumer: analyze_stream\<close>






section \<open>Report generation: write_report\<close>

text \<open>
  A bin is the tuple \<open>(low, high, label)\<close> of lines 170-177. The label stands for the
  formatted string; the upper edge of the last bin is \<^verbatim>\<open>float('inf')\<close>.
\<close>

datatype bound = Finite real | Infinity

datatype bin_label = BelowPercentile real | NormalBin nat | AbovePercentile real

type_synonym bin = "real \<times> bound \<times> bin_label"

fun below :: "real \<Rightarrow> bound \<Rightarrow> bool" where
  "below x (Finite h) \<longleftrightarrow> x < h"
| "below x Infinity \<longleftrightarrow> True"






text \<open>
  Lines 183-190, the inner loop with its \<^verbatim>\<open>break\<close>: the index of the first bin that
  takes the speed, \<open>None\<close> when the loop ends without one. \<open>len\<close> is \<^verbatim>\<open>len(bins)\<close>
  and \<open>i\<close> the index of the head of the remaining bins.
\<close>

fun find_bin :: "nat \<Rightarrow> nat \<Rightarrow> bin list \<Rightarrow> real \<Rightarrow> nat option" where
  "find_bin len i [] speed = None"
| "find_bin len i ((low, high, label) # rest) speed =
     (if Suc i = len then
        (if speed \<ge> low then Some i else find_bin len (Suc i) rest speed)
      else if low \<le> speed \<and> below speed high then Some i
      else find_bin len (Suc i) rest speed)"




section \<open>The receive loop of analyze_stream\<close>





section \<open>Example data\<close>

definition example_config :: config where
  "example_config =
     \<lparr>vehicle_classes = [2, 3, 5, 7], use_left_half = True, min_time_before_count = 1 / 2,
      rtl_correction_factor = 115 / 100, report_update_interval = 4,
      percentile_low = 25, percentile_high = 75, normal_range_bins = 2\<rparr>"

text \<open>
  Four frames 400 pixels wide (the line is at \<open>x = 100\<close>): track 1 moves from 90 to 110,
  back to 90 and to 110 again, track 2 from 110 to 90.
\<close>

definition example_frames :: "frame list" where
  "example_frames =
     [\<lparr>frame_width = 400,
       boxes = Some [(1, (80, 10, 100, 30), 2), (2, (100, 40, 120, 60), 2)],
       current_time = 10\<rparr>,
      \<lparr>frame_width = 400,
       boxes = Some [(1, (100, 10, 120, 30), 2), (2, (80, 40, 100, 60), 2)],
       current_time = 11\<rparr>,
      \<lparr>frame_width = 400, boxes = Some [(1, (80, 10, 100, 30), 2)], current_time = 12\<rparr>,
      \<lparr>frame_width = 400, boxes = Some [(1, (100, 10, 120, 30), 2)], current_time = 13\<rparr>]"




text \<open>The producer's state after the first frame and after the first three frames.\<close>

definition example_state_1 :: det_state where
  "example_state_1 = process_frames example_config 9 (take 1 example_frames) initial_state"

definition example_state_3 :: det_state where
  "example_state_3 = process_frames example_config 9 (take 3 example_frames) initial_state"

section \<open>The producer's invariant\<close>

text \<open>
  What holds of the producer's state throughout a run: no sentinel is on the queue yet,
  every id with a queued crossing is in the Crossed-ID set, no id is queued twice, and
  the queued vehicle numbers are \<open>1\<close> up to the counter.
\<close>

definition counted_inv :: "det_state \<Rightarrow> bool" where
  "counted_inv s \<longleftrightarrow>
     Sentinel \<notin> set (data_queue s) \<and>
     track_id ` set (events (data_queue s)) \<subseteq> crossed_ids s \<and>
     distinct (map track_id (events (data_queue s))) \<and>
     0 \<le> vehicle_count s \<and>
     map vehicle_number (events (data_queue s)) = [1..vehicle_count s]"

section \<open>Lemmas about the producer\<close>

lemma events_append: "events (q @ r) = events q @ events r"
  by (induction q rule: events.induct) simp_all

lemma counted_inv_initial: "counted_inv initial_state"
  by (simp add: counted_inv_def initial_state_def)

lemma count_crossing_inv:
  assumes "counted_inv s" and "tid \<notin> crossed_ids s"
  shows "counted_inv (count_crossing cfg now st tid cx l first s)"
proof -
  obtain fx fy ft where first: "first = (fx, fy, ft)"
    by (cases first) auto
  from assms(1) have "0 \<le> vehicle_count s"
    by (simp add: counted_inv_def)
  then have up: "[1..vehicle_count s + 1] = [1..vehicle_count s] @ [vehicle_count s + 1]"
    by (simp add: upto_rec2)
  from assms up show ?thesis
    by (auto simp: counted_inv_def count_crossing_def first Let_def events_append)
qed

lemma counted_inv_first_seen [simp]:
  "counted_inv (s\<lparr>first_seen_position := m\<rparr>) = counted_inv s"
  by (simp add: counted_inv_def)

lemma counted_inv_previous [simp]:
  "counted_inv (s\<lparr>previous_positions := m\<rparr>) = counted_inv s"
  by (simp add: counted_inv_def)

lemma process_detection_inv:
  assumes "counted_inv s"
  shows "counted_inv (process_detection cfg lx now st d s)"
proof -
  obtain tid x1 y1 x2 y2 cls where d: "d = (tid, (x1, y1, x2, y2), cls)"
    by (cases d) auto
  show ?thesis
    using assms
    by (auto simp: d process_detection_def Let_def intro!: count_crossing_inv
        split: option.splits)
qed

lemma process_detections_inv:
  "counted_inv s \<Longrightarrow> counted_inv (process_detections cfg lx now st ds s)"
  by (induction ds arbitrary: s) (simp_all add: process_detection_inv)

lemma process_frame_inv: "counted_inv s \<Longrightarrow> counted_inv (process_frame cfg st f s)"
  by (simp add: process_frame_def process_detections_inv split: option.splits)

lemma process_frames_inv: "counted_inv s \<Longrightarrow> counted_inv (process_frames cfg st fs s)"
  by (induction fs arbitrary: s) (simp_all add: process_frame_inv)

lemma stop_state_inv: "counted_inv s \<Longrightarrow> counted_inv (stop_state cfg st c s)"
  by (simp add: stop_state_def partial_frame_def process_detections_inv
      split: stop_cause.splits option.splits prod.splits)

lemma final_state_inv: "counted_inv (final_state cfg st fs c)"
  by (simp add: final_state_def stop_state_inv process_frames_inv counted_inv_initial)

lemma events_run_detection:
  "events (run_detection cfg st opened fs c) = []
   \<or> events (run_detection cfg st opened fs c) = events (data_queue (final_state cfg st fs c))"
  by (cases c) (simp_all add: run_detection_def events_append)

lemma no_sentinel_events: "Sentinel \<notin> set q \<Longrightarrow> map Event (events q) = q"
  by (induction q rule: events.induct) simp_all

lemma distinct_filter_le_one:
  "distinct (map f xs) \<Longrightarrow> length (filter (\<lambda>x. f x = a) xs) \<le> 1"
  by (induction xs) (auto simp: filter_empty_conv image_iff)

text \<open>The effect of one detection on the counting state, case by case.\<close>

lemma process_detection_ignored:
  assumes "tid \<in> crossed_ids s \<or> previous_positions s tid = None
           \<or> cls \<notin> set (vehicle_classes cfg)"
  shows "data_queue (process_detection cfg lx now st (tid, box, cls) s) = data_queue s
       \<and> vehicle_count (process_detection cfg lx now st (tid, box, cls) s) = vehicle_count s
       \<and> crossed_ids (process_detection cfg lx now st (tid, box, cls) s) = crossed_ids s"
proof -
  obtain x1 y1 x2 y2 where box: "box = (x1, y1, x2, y2)"
    by (cases box) auto
  show ?thesis
    using assms
    by (auto simp: box process_detection_def Let_def split: option.splits)
qed

lemma process_detection_evaluated:
  assumes "cls \<in> set (vehicle_classes cfg)"
    and "previous_positions s tid = Some (prev_x, prev_y)"
    and "tid \<notin> crossed_ids s"
    and "first_seen_position s tid = Some first"
  shows "process_detection cfg lx now st (tid, (x1, y1, x2, y2), cls) s =
     (if crossed_right prev_x lx ((x1 + x2) / 2) \<or> crossed_left prev_x lx ((x1 + x2) / 2)
      then count_crossing cfg now st tid ((x1 + x2) / 2)
             (crossed_left prev_x lx ((x1 + x2) / 2)) first s
      else s)
     \<lparr>previous_positions := (previous_positions s)(tid \<mapsto> ((x1 + x2) / 2, (y1 + y2) / 2))\<rparr>"
proof -
  have same: "s\<lparr>first_seen_position := (first_seen_position s)(tid \<mapsto> first)\<rparr> = s"
    using assms(4) by (simp add: fun_upd_idem)
  have prev: "previous_positions (count_crossing cfg now st tid cx l first s) = previous_positions s"
    for cx l
    by (cases first) (simp add: count_crossing_def Let_def)
  show ?thesis
    using assms by (simp add: process_detection_def Let_def same prev)
qed

lemmas example_defs =
  example_config_def example_frames_def example_state_1_def example_state_3_def
  initial_state_def process_frame_def process_detection_def count_crossing_def
  line_x_def crop_width_def crossed_right_def crossed_left_def
  run_detection_def final_state_def stop_state_def partial_frame_def

section \<open>Claims about the producer\<close>

text \<open>
  C1. In one run of the detector at most one crossing is put on the queue for any track
  id. A detection that puts a crossing on the queue adds its id to the Crossed-ID set,
  and a detection whose id is already in that set puts nothing on the queue and leaves
  the vehicle counter and the Crossed-ID set as they were, even when it crosses the line.
\<close>

theorem at_most_one_crossing_per_track:
  "length (filter (\<lambda>e. track_id e = tid) (events (run_detection cfg st opened fs c))) \<le> 1
   \<and> (data_queue (process_detection cfg lx now st (t1, box1, cls1) s1) \<noteq> data_queue s1
        \<longrightarrow> t1 \<in> crossed_ids (process_detection cfg lx now st (t1, box1, cls1) s1))
   \<and> (t2 \<in> crossed_ids s2
        \<longrightarrow> data_queue (process_detection cfg lx now st (t2, box2, cls2) s2) = data_queue s2
          \<and> vehicle_count (process_detection cfg lx now st (t2, box2, cls2) s2) = vehicle_count s2
          \<and> crossed_ids (process_detection cfg lx now st (t2, box2, cls2) s2) = crossed_ids s2)"
proof (intro conjI impI)
  have "distinct (map track_id (events (data_queue (final_state cfg st fs c))))"
    using final_state_inv [of cfg st fs c] by (simp add: counted_inv_def)
  then have "distinct (map track_id (events (run_detection cfg st opened fs c)))"
    using events_run_detection [of cfg st opened fs c] by auto
  then show "length (filter (\<lambda>e. track_id e = tid)
                 (events (run_detection cfg st opened fs c))) \<le> 1"
    by (rule distinct_filter_le_one)
next
  assume changed: "data_queue (process_detection cfg lx now st (t1, box1, cls1) s1) \<noteq> data_queue s1"
  obtain x1 y1 x2 y2 where box: "box1 = (x1, y1, x2, y2)"
    by (cases box1) auto
  from changed show "t1 \<in> crossed_ids (process_detection cfg lx now st (t1, box1, cls1) s1)"
    by (auto simp: box process_detection_def count_crossing_def Let_def
        split: option.splits if_splits prod.splits)
next
  assume "t2 \<in> crossed_ids s2"
  then have ign: "t2 \<in> crossed_ids s2 \<or> previous_positions s2 t2 = None
      \<or> cls2 \<notin> set (vehicle_classes cfg)"
    by simp
  show "data_queue (process_detection cfg lx now st (t2, box2, cls2) s2) = data_queue s2"
    using process_detection_ignored [OF ign] by simp
  show "vehicle_count (process_detection cfg lx now st (t2, box2, cls2) s2) = vehicle_count s2"
    using process_detection_ignored [OF ign] by simp
  show "crossed_ids (process_detection cfg lx now st (t2, box2, cls2) s2) = crossed_ids s2"
    using process_detection_ignored [OF ign] by simp
qed

text \<open>
  In the example run track 1 crosses the line twice and is queued once; its first
  crossing changes the queue, its second one, made from the state after three frames,
  changes nothing.
\<close>

theorem at_most_one_crossing_per_track_witness:
  "map track_id (events (run_detection example_config 9 True example_frames ReadFailure)) = [1, 2]
   \<and> length (filter (\<lambda>e. track_id e = 1)
        (events (run_detection example_config 9 True example_frames ReadFailure))) \<le> 1
   \<and> data_queue (process_detection example_config 100 11 9 (1, (100, 10, 120, 30), 2)
        example_state_1) \<noteq> data_queue example_state_1
   \<and> 1 \<in> crossed_ids (process_detection example_config 100 11 9 (1, (100, 10, 120, 30), 2)
        example_state_1)
   \<and> 1 \<in> crossed_ids example_state_3
   \<and> previous_positions example_state_3 1 = Some (90, 20)
   \<and> crossed_right 90 100 ((100 + 120) / 2)
   \<and> data_queue (process_detection example_config 100 13 9 (1, (100, 10, 120, 30), 2)
        example_state_3) = data_queue example_state_3"
  using at_most_one_crossing_per_track [of 1 example_config 9 True example_frames ReadFailure
      100 11 1 "(100, 10, 120, 30)" 2 example_state_1 1 example_state_3 "(100, 10, 120, 30)" 2]
    at_most_one_crossing_per_track [of 1 example_config 9 True example_frames ReadFailure
      100 13 1 "(100, 10, 120, 30)" 2 example_state_1 1 example_state_3 "(100, 10, 120, 30)" 2]
  by (simp add: example_defs)

text \<open>
  C2. A detection that crosses the line, of a track with a first-seen entry that is not
  yet in the Crossed-ID set (the test of line 141), is counted exactly when the time
  since the track was first seen is strictly greater than the configured minimum: then
  one crossing with the next vehicle number is put on the queue and the id joins the
  Crossed-ID set. At or below the minimum the queue, the counter and the Crossed-ID set
  stay as they were, so the id is still not in the set.
\<close>

theorem dwell_threshold_strict:
  assumes "cls \<in> set (vehicle_classes cfg)"
    and "previous_positions s tid = Some (prev_x, prev_y)"
    and "crossed_right prev_x lx ((x1 + x2) / 2) \<or> crossed_left prev_x lx ((x1 + x2) / 2)"
    and "tid \<notin> crossed_ids s"
    and "first_seen_position s tid = Some (first_x, first_y, first_time)"
  shows "let s' = process_detection cfg lx now st (tid, (x1, y1, x2, y2), cls) s in
      (now - first_time > min_time_before_count cfg \<longrightarrow>
         data_queue s' = data_queue s @
           [Event \<lparr>vehicle_number = vehicle_count s + 1, track_id = tid,
                   direction = (if crossed_left prev_x lx ((x1 + x2) / 2) then RTL else LTR),
                   distance_pixels = \<bar>(x1 + x2) / 2 - first_x\<bar>,
                   time_elapsed = now - first_time,
                   timestamp = now - st\<rparr>]
         \<and> vehicle_count s' = vehicle_count s + 1
         \<and> crossed_ids s' = insert tid (crossed_ids s))
    \<and> (now - first_time \<le> min_time_before_count cfg \<longrightarrow>
         data_queue s' = data_queue s
         \<and> vehicle_count s' = vehicle_count s
         \<and> crossed_ids s' = crossed_ids s
         \<and> tid \<notin> crossed_ids s')"
  using assms
  by (simp add: process_detection_evaluated [OF assms(1,2,4,5)] count_crossing_def Let_def)

text \<open>
  Track 1 was first seen at time 10 at \<open>x = 90\<close> and the minimum is one half: a crossing
  seen at 10.5 is suppressed and one seen at 10.75 is counted.
\<close>

theorem dwell_threshold_strict_witness:
  "2 \<in> set (vehicle_classes example_config)
   \<and> previous_positions example_state_1 1 = Some (90, 20)
   \<and> crossed_right 90 100 ((100 + 120) / 2)
   \<and> 1 \<notin> crossed_ids example_state_1
   \<and> first_seen_position example_state_1 1 = Some (90, 20, 10)
   \<and> min_time_before_count example_config = 1 / 2
   \<and> data_queue (process_detection example_config 100 (21 / 2) 9
        (1, (100, 10, 120, 30), 2) example_state_1) = []
   \<and> 1 \<notin> crossed_ids (process_detection example_config 100 (21 / 2) 9
        (1, (100, 10, 120, 30), 2) example_state_1)
   \<and> data_queue (process_detection example_config 100 (43 / 4) 9
        (1, (100, 10, 120, 30), 2) example_state_1) =
       [Event \<lparr>vehicle_number = 1, track_id = 1, direction = LTR, distance_pixels = 20,
               time_elapsed = 3 / 4, timestamp = 7 / 4\<rparr>]
   \<and> crossed_ids (process_detection example_config 100 (43 / 4) 9
        (1, (100, 10, 120, 30), 2) example_state_1) = {1}"
  using dwell_threshold_strict [of 2 example_config example_state_1 1 90 20 100 100 120 10 10
      "21 / 2" 9 10 30]
    dwell_threshold_strict [of 2 example_config example_state_1 1 90 20 100 100 120 10 10
      "43 / 4" 9 10 30]
  by (simp add: example_defs)

text \<open>
  C3. For a detection of a track with a previous position that would be counted (allowed
  class, id not yet counted, dwell time above the minimum), a crossing with direction
  LTR is queued iff \<open>previous.x < line_x \<le> current.x\<close>, one with direction RTL iff
  \<open>previous.x > line_x \<ge> current.x\<close>, and nothing is queued when neither holds. A
  detection of a track without a previous position queues nothing.
\<close>

theorem crossing_test_direction:
  "(cls \<in> set (vehicle_classes cfg)
      \<and> previous_positions s tid = Some (prev_x, prev_y)
      \<and> tid \<notin> crossed_ids s
      \<and> first_seen_position s tid = Some (first_x, first_y, first_time)
      \<and> now - first_time > min_time_before_count cfg
    \<longrightarrow> map direction (events (data_queue
            (process_detection cfg lx now st (tid, (x1, y1, x2, y2), cls) s))) =
          map direction (events (data_queue s)) @
            (if prev_x < of_int lx \<and> of_int lx \<le> (x1 + x2) / 2 then [LTR]
             else if prev_x > of_int lx \<and> of_int lx \<ge> (x1 + x2) / 2 then [RTL]
             else []))
   \<and> (previous_positions s0 tid0 = None
    \<longrightarrow> data_queue (process_detection cfg lx now st (tid0, box0, cls0) s0) = data_queue s0)"
proof (intro conjI impI)
  assume h: "cls \<in> set (vehicle_classes cfg)
      \<and> previous_positions s tid = Some (prev_x, prev_y)
      \<and> tid \<notin> crossed_ids s
      \<and> first_seen_position s tid = Some (first_x, first_y, first_time)
      \<and> now - first_time > min_time_before_count cfg"
  then have ev: "process_detection cfg lx now st (tid, (x1, y1, x2, y2), cls) s =
     (if crossed_right prev_x lx ((x1 + x2) / 2) \<or> crossed_left prev_x lx ((x1 + x2) / 2)
      then count_crossing cfg now st tid ((x1 + x2) / 2)
             (crossed_left prev_x lx ((x1 + x2) / 2)) (first_x, first_y, first_time) s
      else s)
     \<lparr>previous_positions := (previous_positions s)(tid \<mapsto> ((x1 + x2) / 2, (y1 + y2) / 2))\<rparr>"
    by (intro process_detection_evaluated) simp_all
  from h show "map direction (events (data_queue
            (process_detection cfg lx now st (tid, (x1, y1, x2, y2), cls) s))) =
          map direction (events (data_queue s)) @
            (if prev_x < of_int lx \<and> of_int lx \<le> (x1 + x2) / 2 then [LTR]
             else if prev_x > of_int lx \<and> of_int lx \<ge> (x1 + x2) / 2 then [RTL]
             else [])"
    by (auto simp: ev count_crossing_def Let_def events_append crossed_right_def
        crossed_left_def)
next
  assume "previous_positions s0 tid0 = None"
  then have ign: "tid0 \<in> crossed_ids s0 \<or> previous_positions s0 tid0 = None
      \<or> cls0 \<notin> set (vehicle_classes cfg)"
    by simp
  show "data_queue (process_detection cfg lx now st (tid0, box0, cls0) s0) = data_queue s0"
    using process_detection_ignored [OF ign] by simp
qed

text \<open>
  With the line at 100: track 1 moving from 90 to 110 is queued as LTR and moving from 90
  to 95 is not queued; track 2 moving from 110 to 90 is queued as RTL; track 3, seen for
  the first time at 110, is not queued.
\<close>

theorem crossing_test_direction_witness:
  "previous_positions example_state_1 1 = Some (90, 20)
   \<and> previous_positions example_state_1 2 = Some (110, 50)
   \<and> previous_positions example_state_1 3 = None
   \<and> data_queue example_state_1 = []
   \<and> map direction (events (data_queue (process_detection example_config 100 11 9
        (1, (100, 10, 120, 30), 2) example_state_1))) = [LTR]
   \<and> map direction (events (data_queue (process_detection example_config 100 11 9
        (2, (80, 40, 100, 60), 2) example_state_1))) = [RTL]
   \<and> map direction (events (data_queue (process_detection example_config 100 11 9
        (1, (85, 10, 105, 30), 2) example_state_1))) = []
   \<and> data_queue (process_detection example_config 100 11 9
        (3, (100, 10, 120, 30), 2) example_state_1) = []"
  using crossing_test_direction [of 2 example_config example_state_1 1 90 20 90 20 10 11 100 9
      100 10 120 30 example_state_1 3 "(100, 10, 120, 30)" 2]
    crossing_test_direction [of 2 example_config example_state_1 2 110 50 110 50 10 11 100 9
      80 40 100 60 example_state_1 3 "(100, 10, 120, 30)" 2]
    crossing_test_direction [of 2 example_config example_state_1 1 90 20 90 20 10 11 100 9
      85 10 105 30 example_state_1 3 "(100, 10, 120, 30)" 2]
  by (simp add: example_defs)

text \<open>
  C6. The vehicle numbers of the crossings a run puts on the queue are, in the order of
  the queue, \<open>1, 2, \<dots>, K\<close>, where \<open>K\<close> is the number of crossings queued.
\<close>

theorem vehicle_numbers_sequential:
  "map vehicle_number (events (run_detection cfg st opened fs c)) =
     [1..int (length (events (run_detection cfg st opened fs c)))]"
proof -
  let ?s = "final_state cfg st fs c"
  have nums: "map vehicle_number (events (data_queue ?s)) = [1..vehicle_count ?s]"
    and nonneg: "0 \<le> vehicle_count ?s"
    using final_state_inv [of cfg st fs c] by (simp_all add: counted_inv_def)
  from nums have "length (events (data_queue ?s)) = length [1..vehicle_count ?s]"
    by (metis length_map)
  with nonneg have "int (length (events (data_queue ?s))) = vehicle_count ?s"
    by simp
  with nums have full: "map vehicle_number (events (data_queue ?s)) =
      [1..int (length (events (data_queue ?s)))]"
    by simp
  from events_run_detection [of cfg st opened fs c] show ?thesis
  proof
    assume "events (run_detection cfg st opened fs c) = []"
    then show ?thesis by simp
  next
    assume "events (run_detection cfg st opened fs c) = events (data_queue ?s)"
    with full show ?thesis by simp
  qed
qed

theorem vehicle_numbers_sequential_witness:
  "map vehicle_number (events (run_detection example_config 9 True example_frames ReadFailure))
     = [1, 2]"
proof -
  have len: "length (events (run_detection example_config 9 True example_frames ReadFailure)) = 2"
    by (simp add: example_defs)
  have "[1..2] = [1, 2::int]"
    by (simp add: upto.simps)
  with len vehicle_numbers_sequential [of example_config 9 True example_frames ReadFailure]
  show ?thesis
    by simp
qed

text \<open>
  The exits that reach the producer's own handling: when the source cannot be opened, or
  reading a frame fails, or an exception or an interrupt is raised inside the
  \<^verbatim>\<open>try\<close> block, at any point, the queue holds exactly one sentinel, it is the last
  item, and everything before it is a crossing. When the source cannot be opened the
  sentinel is the only item.
\<close>

lemma sentinel_on_handled_exits:
  assumes "c = ReadFailure \<or> (\<exists>e p. c = Raised e p)"
  shows "count_list (run_detection cfg st opened fs c) Sentinel = 1
       \<and> last (run_detection cfg st opened fs c) = Sentinel
       \<and> run_detection cfg st opened fs c =
           map Event (events (run_detection cfg st opened fs c)) @ [Sentinel]
       \<and> run_detection cfg st False fs c = [Sentinel]"
proof -
  let ?q = "data_queue (final_state cfg st fs c)"
  have no: "Sentinel \<notin> set ?q"
    using final_state_inv [of cfg st fs c] by (simp add: counted_inv_def)
  then have "count_list ?q Sentinel = 0"
    by (simp add: count_list_0_iff)
  moreover from no have "map Event (events ?q) = ?q"
    by (rule no_sentinel_events)
  ultimately show ?thesis
    using assms by (auto simp: run_detection_def events_append)
qed

text \<open>
  The exits that do not: a terminated process and an exception outside the
  \<^verbatim>\<open>try\<close> block leave a queue without a sentinel.
\<close>

lemma no_sentinel_on_unhandled_exits:
  "Sentinel \<notin> set (run_detection cfg st True fs (Terminated p))"
  "run_detection cfg st opened fs (SetupRaised e) = []"
  "run_detection cfg st True fs (InitRaised e) = []"
proof -
  show "Sentinel \<notin> set (run_detection cfg st True fs (Terminated p))"
    using final_state_inv [of cfg st fs "Terminated p"]
    by (simp add: run_detection_def counted_inv_def)
qed (simp_all add: run_detection_def)

text \<open>
  C7. The claim holds of the exits above that the producer handles, and fails of the
  others, which the code misses. In the example run, when the coordinator ends the
  producer after the four frames (run_traffic.py, line 116, its stop when the duration
  has elapsed), the queue holds the two crossings and no sentinel; when loading the
  model raises (detect_cars.py, line 28) or a configuration key of lines 48-73 is
  missing, the queue is empty. The claim asks for exactly one sentinel, put last, on
  every path.
\<close>

theorem sentinel_missing_when_terminated:
  "run_detection example_config 9 True example_frames (Terminated None) =
     [Event \<lparr>vehicle_number = 1, track_id = 1, direction = LTR, distance_pixels = 20,
             time_elapsed = 1, timestamp = 2\<rparr>,
      Event \<lparr>vehicle_number = 2, track_id = 2, direction = RTL, distance_pixels = 20,
             time_elapsed = 1, timestamp = 2\<rparr>]
   \<and> count_list (run_detection example_config 9 True example_frames (Terminated None))
         Sentinel = 0
   \<and> run_detection example_config 9 True [] (SetupRaised OtherException) = []
   \<and> run_detection example_config 9 True [] (InitRaised OtherException) = []
   \<and> run_detection example_config 9 True example_frames ReadFailure =
     [Event \<lparr>vehicle_number = 1, track_id = 1, direction = LTR, distance_pixels = 20,
             time_elapsed = 1, timestamp = 2\<rparr>,
      Event \<lparr>vehicle_number = 2, track_id = 2, direction = RTL, distance_pixels = 20,
             time_elapsed = 1, timestamp = 2\<rparr>,
      Sentinel]"
  by (simp add: example_defs)

section \<open>Lemmas about the consumer\<close>









section \<open>Claims about the consumer\<close>






section \<open>Lemmas about the bins\<close>






lemma find_bin_bound: "find_bin len i bs speed = Some m \<Longrightarrow> i \<le> m \<and> m < i + length bs"
proof (induction len i bs speed rule: find_bin.induct)
  case (1 len i speed)
  then show ?case by simp
next
  case (2 len i low high label rest speed)
  show ?case
  proof (cases "find_bin len i ((low, high, label) # rest) speed = find_bin len (Suc i) rest speed")
    case True
    with 2 show ?thesis
      by (cases "Suc i = len"; cases "low \<le> speed"; cases "below speed high") auto
  next
    case False
    then have "find_bin len i ((low, high, label) # rest) speed = Some i"
      by (simp split: if_splits)
    with 2(3) show ?thesis by simp
  qed
qed




section \<open>Lemmas about the percentiles and the report\<close>


















section \<open>Claims about the report\<close>








end
